theory Spec2Isabelle
  imports Complex_Main "HOL-Library.Sublist" "HOL-Library.Char_ord" "HOL-Library.List_Lexorder"
    "HOL-Library.Log_Nat"
begin

section \<open>Python strings\<close>

text \<open>
  A Python \<open>str\<close> is modelled as a \<^typ>\<open>string\<close>; the model covers ASCII text, where
  \<open>str.lower\<close>, \<open>\s\<close>, \<open>\d\<close> and \<open>str.strip\<close> act as defined below. Characters beyond
  ASCII, among them the whitespace characters U+0085 and U+00A0, are outside the model.
\<close>

definition is_upper :: "char \<Rightarrow> bool" where
  "is_upper c \<longleftrightarrow> CHR ''A'' \<le> c \<and> c \<le> CHR ''Z''"

definition is_lower :: "char \<Rightarrow> bool" where
  "is_lower c \<longleftrightarrow> CHR ''a'' \<le> c \<and> c \<le> CHR ''z''"

definition is_digit :: "char \<Rightarrow> bool" where
  "is_digit c \<longleftrightarrow> CHR ''0'' \<le> c \<and> c \<le> CHR ''9''"

definition is_space :: "char \<Rightarrow> bool" where
  "is_space c \<longleftrightarrow>
     c = CHR '' '' \<or> (CHR 0x09 \<le> c \<and> c \<le> CHR 0x0D) \<or> (CHR 0x1C \<le> c \<and> c \<le> CHR 0x1F)"

definition lower_char :: "char \<Rightarrow> char" where
  "lower_char c = (if is_upper c then char_of (of_char c + (32::nat)) else c)"

definition py_lower :: "string \<Rightarrow> string" where
  "py_lower s = map lower_char s"

definition lstrip :: "string \<Rightarrow> string" where
  "lstrip s = dropWhile is_space s"

definition rstrip :: "string \<Rightarrow> string" where
  "rstrip s = rev (dropWhile is_space (rev s))"

definition strip :: "string \<Rightarrow> string" where
  "strip s = lstrip (rstrip s)"

text \<open>\<open>k in s\<close> on strings: \<open>k\<close> occurs in \<open>s\<close> as a contiguous substring.\<close>

fun py_in :: "string \<Rightarrow> string \<Rightarrow> bool" where
  "py_in k [] = (k = [])"
| "py_in k (c # cs) = (prefix k (c # cs) \<or> py_in k cs)"

text \<open>\<open>' '.join(xs)\<close>\<close>

fun join_sp :: "string list \<Rightarrow> string" where
  "join_sp [] = []"
| "join_sp [x] = x"
| "join_sp (x # y # ys) = x @ CHR '' '' # join_sp (y # ys)"

section \<open>Narration classifier (Actual\_bankstatement\_parser.py)\<close>

text \<open>\<open>re.sub(r'[^a-zA-Z0-9 ]', ' ', text)\<close>, one character at a time.\<close>

definition sub_non_alnum :: "char \<Rightarrow> char" where
  "sub_non_alnum c =
     (if is_lower c \<or> is_upper c \<or> is_digit c \<or> c = CHR '' '' then c else CHR '' '')"

text \<open>\<open>re.sub(r'\s+', ' ', text)\<close>: every maximal run of whitespace becomes one space.\<close>

function collapse_ws :: "string \<Rightarrow> string" where
  "collapse_ws [] = []"
| "collapse_ws (c # cs) =
     (if is_space c then CHR '' '' # collapse_ws (dropWhile is_space cs)
      else c # collapse_ws cs)"
  by pat_completeness auto
termination
  by (relation "measure length") (auto simp: length_dropWhile_le less_Suc_eq_le)

definition clean_text :: "string \<Rightarrow> string" where
  "clean_text text = strip (collapse_ws (map sub_non_alnum (py_lower text)))"

text \<open>The \<open>categories\<close> dictionary, in its insertion order.\<close>

definition categories :: "(string \<times> string list) list" where
  "categories =
    [(''transfer'', [''upi'', ''imps'', ''neft'', ''rtgs'', ''ib billpay'', ''billpay'']),
     (''salary'', [''salary'', ''payroll'', ''credit'']),
     (''shopping'', [''amazon'', ''flipkart'', ''myntra'', ''shopping'', ''ecommerce'', ''paytm'']),
     (''food'', [''swiggy'', ''zomato'', ''food'', ''restaurant'', ''cafe'',
                 ''luluinternationalsho'', ''bakery'', ''gpay'']),
     (''entertainment'', [''netflix'', ''youtube'', ''spotify'', ''entertainment'']),
     (''utilities'', [''electricity'', ''water'', ''gas'', ''bill'', ''recharge'']),
     (''fuel'', [''petrol'', ''diesel'', ''fuel'', ''hpcl'', ''bpcl'']),
     (''others'', [])]"

text \<open>
  The inner loop \<open>for keyword in keywords: if keyword in narration: return category\<close>:
  \<open>True\<close> when the \<open>return\<close> is reached.
\<close>

fun keyword_loop :: "string list \<Rightarrow> string \<Rightarrow> bool" where
  "keyword_loop [] narration = False"
| "keyword_loop (keyword # keywords) narration =
     (if py_in keyword narration then True else keyword_loop keywords narration)"

fun category_loop :: "(string \<times> string list) list \<Rightarrow> string \<Rightarrow> string" where
  "category_loop [] narration = ''others''"
| "category_loop ((category, keywords) # rest) narration =
     (if keyword_loop keywords narration then category else category_loop rest narration)"

definition categorize_transaction :: "string \<Rightarrow> string" where
  "categorize_transaction narration = category_loop categories narration"

text \<open>
  The precedence rule in the words of the specification: the first category of the
  taxonomy, in declaration order, one of whose keywords is a substring of the narration;
  \<open>others\<close> when there is none.
\<close>

definition first_matching_category :: "(string \<times> string list) list \<Rightarrow> string \<Rightarrow> string" where
  "first_matching_category taxonomy narration =
     (case List.find (\<lambda>entry. list_ex (\<lambda>k. py_in k narration) (snd entry)) taxonomy of
        Some entry \<Rightarrow> fst entry
      | None \<Rightarrow> ''others'')"

section \<open>Raw sheet and table locator (Actual\_bankstatement\_parser.py)\<close>

text \<open>
  A cell of the raw sheet is given by its \<open>str()\<close> text; \<open>None\<close> is an empty cell
  (NaN), which \<open>dropna\<close> removes and \<open>astype(str)\<close> renders as \<open>nan\<close>. The frame
  read by \<open>pd.read_excel(..., header=None)\<close> is its column count and its rows.
\<close>

type_synonym cell = "string option"
type_synonym row = "cell list"

record raw_sheet =
  n_columns :: nat
  sheet_rows :: "row list"

datatype error = ValueError

definition astype_str :: "cell \<Rightarrow> string" where
  "astype_str c = (case c of None \<Rightarrow> ''nan'' | Some s \<Rightarrow> s)"

text \<open>\<open>row_values = df.iloc[i].astype(str).str.lower()\<close>\<close>

definition row_values :: "row \<Rightarrow> string list" where
  "row_values r = map (\<lambda>c. py_lower (astype_str c)) r"

text \<open>The test of the \<open>if\<close> branch and the test of the \<open>elif\<close> branch of the scan.\<close>

definition is_header_row :: "row \<Rightarrow> bool" where
  "is_header_row r \<longleftrightarrow> ''date'' \<in> set (row_values r) \<and> ''narration'' \<in> set (row_values r)"

definition is_summary_row :: "row \<Rightarrow> bool" where
  "is_summary_row r \<longleftrightarrow> py_in ''statement summary'' (join_sp (row_values r))"

text \<open>
  The loop \<open>for i in range(len(df))\<close> from row \<open>i\<close> on, with the start index found so
  far; the \<open>break\<close> returns at once, the end of the sheet leaves the end index \<open>None\<close>.
\<close>

fun find_loop :: "row list \<Rightarrow> int \<Rightarrow> int option \<Rightarrow> int option \<times> int option" where
  "find_loop [] i transaction_start_idx = (transaction_start_idx, None)"
| "find_loop (r # rs) i transaction_start_idx =
     (if is_header_row r then find_loop rs (i + 1) (Some (i + 1))
      else if is_summary_row r then (transaction_start_idx, Some (i - 1))
      else find_loop rs (i + 1) transaction_start_idx)"

definition find_transaction_data_indices :: "row list \<Rightarrow> int option \<times> int option" where
  "find_transaction_data_indices df = find_loop df 0 None"

text \<open>
  Python slicing \<open>xs[start:stop]\<close> as \<open>iloc\<close> uses it: \<open>None\<close> is the default bound, a
  negative index counts from the end, and every bound is clipped to the length.
\<close>

definition slice_bound :: "nat \<Rightarrow> int \<Rightarrow> nat" where
  "slice_bound n i = (if i < 0 then nat (max (i + int n) 0) else min (nat i) n)"

definition iloc_slice :: "'a list \<Rightarrow> int option \<Rightarrow> int option \<Rightarrow> 'a list" where
  "iloc_slice xs start stop =
     (let n = length xs;
          lo = (case start of None \<Rightarrow> 0 | Some i \<Rightarrow> slice_bound n i);
          hi = (case stop of None \<Rightarrow> n | Some i \<Rightarrow> slice_bound n i)
      in take (hi - lo) (drop lo xs))"

text \<open>
  The module-level extraction: locate the table, slice the sheet, and name the seven
  columns; \<open>df.columns = [...]\<close> raises \<open>ValueError\<close> on a frame of another width.
\<close>

definition extract_table :: "raw_sheet \<Rightarrow> error + row list" where
  "extract_table df_raw =
     (case find_transaction_data_indices (sheet_rows df_raw) of
        (start_idx, end_idx) \<Rightarrow>
          if n_columns df_raw = 7
          then Inr (iloc_slice (sheet_rows df_raw) start_idx end_idx)
          else Inl ValueError)"

section \<open>Ledger normalizer and aggregator (Actual\_bankstatement\_parser.py)\<close>

text \<open>
  A row of the ledger after numeric coercion (\<open>pd.to_numeric(...).fillna(0)\<close>): both
  amounts are float64 numbers, each modelled by the real number it denotes.
\<close>

record amounts =
  withdrawal_amt :: real
  deposit_amt :: real

definition calculate_amount :: "'a amounts_scheme \<Rightarrow> real" where
  "calculate_amount row =
     (if withdrawal_amt row > 0 then withdrawal_amt row
      else if deposit_amt row > 0 then deposit_amt row
      else 0)"

definition calculate_transaction_type :: "'a amounts_scheme \<Rightarrow> string" where
  "calculate_transaction_type row =
     (if withdrawal_amt row > 0 then ''withdrawal''
      else if deposit_amt row > 0 then ''deposit''
      else ''unknown'')"

record transaction = amounts +
  narration :: string
  amount :: real
  transaction_type :: string
  narration_clean :: string
  category :: string

text \<open>The derived columns of one row, as the script adds them.\<close>

definition enrich :: "real \<Rightarrow> real \<Rightarrow> string \<Rightarrow> transaction" where
  "enrich w d n =
     (let row = \<lparr>withdrawal_amt = w, deposit_amt = d\<rparr> in
      \<lparr>withdrawal_amt = w, deposit_amt = d, narration = n,
       amount = calculate_amount row,
       transaction_type = calculate_transaction_type row,
       narration_clean = clean_text n,
       category = categorize_transaction (clean_text n)\<rparr>)"

text \<open>\<open>df[df['transaction_type'] == 'withdrawal']\<close>\<close>

definition withdrawals :: "transaction list \<Rightarrow> transaction list" where
  "withdrawals df = filter (\<lambda>t. transaction_type t = ''withdrawal'') df"

text \<open>
  Addition of float64 numbers: the exact sum, rounded to the nearest number with a
  53-bit significand, ties to the even one (the spacing below \<open>2 ^ - 1022\<close> is
  \<open>2 ^ - 1074\<close>). Results of magnitude \<open>2 ^ 1024\<close> and above are outside the model.
\<close>

definition pow2 :: "int \<Rightarrow> real" where
  "pow2 k = (if 0 \<le> k then 2 ^ nat k else 1 / 2 ^ nat (- k))"

text \<open>The exponent \<open>e\<close> of a nonzero \<open>x\<close>: \<open>2 ^ e \<le> |x| < 2 ^ (e + 1)\<close>.\<close>

definition exponent :: "real \<Rightarrow> int" where
  "exponent x =
     (let a = \<bar>x\<bar>;
          c = (if 1 \<le> a then bitlen \<lfloor>a\<rfloor> - 1 else - bitlen \<lfloor>1 / a\<rfloor>)
      in if pow2 (c + 1) \<le> a then c + 1 else c)"

definition round_half_even :: "real \<Rightarrow> int" where
  "round_half_even y =
     (let f = \<lfloor>y\<rfloor>; r = y - of_int f
      in if r < 1 / 2 then f else if 1 / 2 < r then f + 1 else if even f then f else f + 1)"

definition round64 :: "real \<Rightarrow> real" where
  "round64 x =
     (if x = 0 then 0
      else (let u = max (exponent x - 52) (- 1074)
            in of_int (round_half_even (x / pow2 u)) * pow2 u))"

definition float64_add :: "real \<Rightarrow> real \<Rightarrow> real" where
  "float64_add x y = round64 (x + y)"

text \<open>
  \<open>Series.sum()\<close> of a float64 column: the values added in row order, from 0. The
  library adds columns of eight or more values in blocks and carries a compensation term
  in grouped sums; neither changes the sum of a shorter column or of a group of two rows,
  nor any sum whose additions are all exact.
\<close>

definition float64_sum :: "real list \<Rightarrow> real" where
  "float64_sum xs = foldl float64_add 0 xs"

definition total_expenditure :: "transaction list \<Rightarrow> real" where
  "total_expenditure df = float64_sum (map amount (withdrawals df))"

text \<open>
  \<open>groupby('category')\<close>: one group per category that occurs, keys sorted, each with
  its rows in their order; \<open>['amount'].sum()\<close> adds the amounts of each group.
\<close>

definition groupby_category :: "transaction list \<Rightarrow> (string \<times> transaction list) list" where
  "groupby_category df =
     map (\<lambda>c. (c, filter (\<lambda>t. category t = c) df)) (sort (remdups (map category df)))"

definition groupby_category_sum :: "transaction list \<Rightarrow> (string \<times> real) list" where
  "groupby_category_sum df =
     map (\<lambda>g. (fst g, float64_sum (map amount (snd g)))) (groupby_category df)"

definition category_spending :: "transaction list \<Rightarrow> (string \<times> real) list" where
  "category_spending df = groupby_category_sum (withdrawals df)"

text \<open>The category totals added up, as \<open>category_spending.sum()\<close> does.\<close>

definition category_spending_sum :: "transaction list \<Rightarrow> real" where
  "category_spending_sum df = float64_sum (map snd (category_spending df))"

section \<open>Header extractor (Actual\_bankstatement\_parser.py)\<close>

text \<open>\<open>line = ' '.join(map(str, row.dropna()))\<close>\<close>

definition row_line :: "row \<Rightarrow> string" where
  "row_line r = join_sp (List.map_filter (\<lambda>c. c) r)"

text \<open>
  \<open>re.search\<close>: the match at the leftmost position of the line where the pattern
  matches; the pattern is given by its matcher at a fixed position.
\<close>

fun re_search :: "(string \<Rightarrow> 'a option) \<Rightarrow> string \<Rightarrow> 'a option" where
  "re_search m [] = m []"
| "re_search m (c # cs) = (case m (c # cs) of Some g \<Rightarrow> Some g | None \<Rightarrow> re_search m cs)"

text \<open>
  The common prefix \<open>label\s*:\s*\<close> of four of the patterns, matched at the start of
  \<open>s\<close>: the text left after it. Neither \<open>:\<close> nor the first character of what follows
  is whitespace, so the greedy \<open>\s*\<close> never gives anything back.
\<close>

definition match_label :: "string \<Rightarrow> string \<Rightarrow> string option" where
  "match_label label s =
     (if prefix label s
      then (case dropWhile is_space (drop (length label) s) of
              [] \<Rightarrow> None
            | c # rest \<Rightarrow> if c = CHR '':'' then Some (dropWhile is_space rest) else None)
      else None)"

text \<open>\<open>(.*)\<close>: the rest of the line, up to a newline.\<close>

definition dot_star :: "string \<Rightarrow> string" where
  "dot_star s = takeWhile (\<lambda>c. c \<noteq> CHR 0x0A) s"

text \<open>\<open>(\d+)\<close>: a run of digits, at least one.\<close>

definition digits1 :: "string \<Rightarrow> string option" where
  "digits1 s = (if takeWhile is_digit s = [] then None else Some (takeWhile is_digit s))"

text \<open>\<open>\s*To\s*:\s*(.*)\<close> at the start of \<open>s\<close>.\<close>

definition match_to :: "string \<Rightarrow> string option" where
  "match_to s = map_option dot_star (match_label ''To'' (dropWhile is_space s))"

text \<open>
  The lazy group \<open>(.*?)\<close> followed by \<open>\s*To\s*:\s*(.*)\<close>: the shortest text without a
  newline after which the rest matches; \<open>acc\<close> holds the group so far, reversed.
\<close>

fun lazy_until_to :: "string \<Rightarrow> string \<Rightarrow> (string \<times> string) option" where
  "lazy_until_to acc [] = (case match_to [] of Some g \<Rightarrow> Some (rev acc, g) | None \<Rightarrow> None)"
| "lazy_until_to acc (c # cs) =
     (case match_to (c # cs) of
        Some g \<Rightarrow> Some (rev acc, g)
      | None \<Rightarrow> if c = CHR 0x0A then None else lazy_until_to (c # acc) cs)"

text \<open>\<open>Statement From\s*:\s*(.*?)\s*To\s*:\s*(.*)\<close>\<close>

definition match_period :: "string \<Rightarrow> (string \<times> string) option" where
  "match_period s =
     (case match_label ''Statement From'' s of
        None \<Rightarrow> None
      | Some rest \<Rightarrow> lazy_until_to [] rest)"

text \<open>\<open>Account No\s*:\s*(\d+)\<close> and \<open>Cust ID\s*:\s*(\d+)\<close>\<close>

definition match_number :: "string \<Rightarrow> string \<Rightarrow> string option" where
  "match_number label s =
     (case match_label label s of None \<Rightarrow> None | Some rest \<Rightarrow> digits1 rest)"

text \<open>\<open>Email\s*:\s*(.*)\<close>\<close>

definition match_email :: "string \<Rightarrow> string option" where
  "match_email s = map_option dot_star (match_label ''Email'' s)"

text \<open>
  \<open>(MR|MRS|MS)\s*(.*)\<close>, group 2: the alternatives are tried in their order, and the
  rest of the pattern matches after any of them.
\<close>

definition match_name :: "string \<Rightarrow> string option" where
  "match_name s =
     (if prefix ''MR'' s then Some (dot_star (dropWhile is_space (drop 2 s)))
      else if prefix ''MRS'' s then Some (dot_star (dropWhile is_space (drop 3 s)))
      else if prefix ''MS'' s then Some (dot_star (dropWhile is_space (drop 2 s)))
      else None)"

datatype header_value = Str string | Period string string

type_synonym header_info = "string \<rightharpoonup> header_value"

text \<open>The body of the loop of \<open>extract_header_info\<close> for one line.\<close>

definition header_step :: "string \<Rightarrow> header_info \<Rightarrow> header_info" where
  "header_step line header_info =
     (if py_in ''Statement From'' line then
        (case re_search match_period line of
           Some (f, t) \<Rightarrow> header_info(''Statement Period'' \<mapsto> Period f t)
         | None \<Rightarrow> header_info)
      else if py_in ''Account No'' line then
        (case re_search (match_number ''Account No'') line of
           Some g \<Rightarrow> header_info(''Account Number'' \<mapsto> Str g)
         | None \<Rightarrow> header_info)
      else if py_in ''Email'' line then
        (case re_search match_email line of
           Some g \<Rightarrow> header_info(''Email'' \<mapsto> Str (strip g))
         | None \<Rightarrow> header_info)
      else if py_in ''MR'' line \<or> py_in ''MRS'' line \<or> py_in ''MS'' line then
        (case re_search match_name line of
           Some g \<Rightarrow> header_info(''Name'' \<mapsto> Str (strip g))
         | None \<Rightarrow> header_info)
      else if py_in ''Cust ID'' line then
        (case re_search (match_number ''Cust ID'') line of
           Some g \<Rightarrow> header_info(''Customer ID'' \<mapsto> Str g)
         | None \<Rightarrow> header_info)
      else header_info)"

fun header_loop :: "row list \<Rightarrow> header_info \<Rightarrow> header_info" where
  "header_loop [] header_info = header_info"
| "header_loop (r # rs) header_info = header_loop rs (header_step (row_line r) header_info)"

definition extract_header_info :: "row list \<Rightarrow> header_info" where
  "extract_header_info df = header_loop df Map.empty"

text \<open>What a single row records under a field, on its own.\<close>

definition row_records :: "row \<Rightarrow> string \<Rightarrow> header_value option" where
  "row_records r field = header_step (row_line r) Map.empty field"

section \<open>Outlier filter (prediction\_with\_mutualfunds\_recomendation.py)\<close>

text \<open>A row of the monthly series: the month as (year, month) and its balance.\<close>

record monthly_row =
  year_month :: "int \<times> int"
  closing_balance :: real

text \<open>
  \<open>Series.quantile(q)\<close> with its default linear interpolation, over exact reals:
  \<open>ValueError\<close> when \<open>q\<close> is outside \<open>[0, 1]\<close>, \<open>None\<close> (NaN) on an empty series,
  otherwise the value at position \<open>(n - 1) * q\<close> of the sorted values, interpolated
  between its two neighbours.
\<close>

definition quantile :: "real list \<Rightarrow> real \<Rightarrow> error + real option" where
  "quantile xs q =
     (if q < 0 \<or> 1 < q then Inl ValueError
      else if xs = [] then Inr None
      else (let s = sort xs;
                h = real (length xs - 1) * q;
                lo = nat \<lfloor>h\<rfloor>;
                hi = nat \<lceil>h\<rceil>
            in Inr (Some (s ! lo + (h - real lo) * (s ! hi - s ! lo)))))"

text \<open>
  The row mask \<open>(col >= lower) & (col <= upper)\<close>; a comparison with NaN is false.
\<close>

definition in_bounds :: "real option \<Rightarrow> real option \<Rightarrow> real \<Rightarrow> bool" where
  "in_bounds lower upper v =
     (case lower of None \<Rightarrow> False
      | Some l \<Rightarrow> (case upper of None \<Rightarrow> False | Some u \<Rightarrow> l \<le> v \<and> v \<le> u))"

definition remove_outliers :: "monthly_row list \<Rightarrow> real \<Rightarrow> real \<Rightarrow> error + monthly_row list" where
  "remove_outliers monthly_df lower_quantile upper_quantile =
     (case quantile (map closing_balance monthly_df) lower_quantile of
        Inl e \<Rightarrow> Inl e
      | Inr lower \<Rightarrow>
          (case quantile (map closing_balance monthly_df) upper_quantile of
             Inl e \<Rightarrow> Inl e
           | Inr upper \<Rightarrow>
               Inr (filter (\<lambda>r. in_bounds lower upper (closing_balance r)) monthly_df)))"

section \<open>Forecast output (prediction\_with\_mutualfunds\_recomendation.py)\<close>

text \<open>
  A row of the forecaster's output, and a row of the renamed table that is printed or
  written. \<open>tail\<close> yields a frame of its own: assigning its columns leaves the
  forecaster's frame as it was.
\<close>

record forecast_row =
  ds :: "int \<times> int"
  yhat :: real
  yhat_lower :: real
  yhat_upper :: real

record report_row =
  Date :: "int \<times> int"
  Predicted_Closing_Balance :: real
  Lower_Confidence_Interval :: real
  Upper_Confidence_Interval :: real

definition tail :: "'a list \<Rightarrow> nat \<Rightarrow> 'a list" where
  "tail df n = drop (length df - n) df"

definition rename_columns :: "forecast_row \<Rightarrow> report_row" where
  "rename_columns r =
     \<lparr>Date = ds r, Predicted_Closing_Balance = yhat r,
      Lower_Confidence_Interval = yhat_lower r, Upper_Confidence_Interval = yhat_upper r\<rparr>"

text \<open>The three column assignments \<open>apply(lambda x: max(x, 0))\<close> of \<open>display_forecast\<close>.\<close>

definition floor_row :: "forecast_row \<Rightarrow> forecast_row" where
  "floor_row r =
     r\<lparr>yhat := max (yhat r) 0, yhat_lower := max (yhat_lower r) 0,
       yhat_upper := max (yhat_upper r) 0\<rparr>"

text \<open>
  \<open>display_forecast\<close>: the table whose values are printed, before each number is
  rendered as currency text.
\<close>

definition display_forecast :: "forecast_row list \<Rightarrow> nat \<Rightarrow> report_row list" where
  "display_forecast forecast periods = map rename_columns (map floor_row (tail forecast periods))"

text \<open>\<open>save_forecast_to_excel\<close>: the table \<open>save_df\<close> handed to \<open>to_excel\<close>.\<close>

definition save_forecast_to_excel :: "forecast_row list \<Rightarrow> nat \<Rightarrow> report_row list" where
  "save_forecast_to_excel forecast periods = map rename_columns (tail forecast periods)"

section \<open>Auxiliary notions and sample data\<close>

text \<open>The characters a cleaned narration is made of.\<close>

definition clean_char :: "char \<Rightarrow> bool" where
  "clean_char c \<longleftrightarrow> is_lower c \<or> is_digit c \<or> c = CHR '' ''"

text \<open>Text whose only whitespace is single spaces, none next to another.\<close>

fun single_spaced :: "string \<Rightarrow> bool" where
  "single_spaced (a # b # cs) =
     ((is_space a \<longrightarrow> a = CHR '' '' \<and> \<not> is_space b) \<and> single_spaced (b # cs))"
| "single_spaced [a] = (is_space a \<longrightarrow> a = CHR '' '')"
| "single_spaced [] = True"

text \<open>The field and value that one line assigns, if any.\<close>

definition line_entry :: "string \<Rightarrow> (string \<times> header_value) option" where
  "line_entry line =
     (if py_in ''Statement From'' line then
        map_option (\<lambda>(f, t). (''Statement Period'', Period f t)) (re_search match_period line)
      else if py_in ''Account No'' line then
        map_option (\<lambda>g. (''Account Number'', Str g))
          (re_search (match_number ''Account No'') line)
      else if py_in ''Email'' line then
        map_option (\<lambda>g. (''Email'', Str (strip g))) (re_search match_email line)
      else if py_in ''MR'' line \<or> py_in ''MRS'' line \<or> py_in ''MS'' line then
        map_option (\<lambda>g. (''Name'', Str (strip g))) (re_search match_name line)
      else if py_in ''Cust ID'' line then
        map_option (\<lambda>g. (''Customer ID'', Str g)) (re_search (match_number ''Cust ID'') line)
      else None)"

text \<open>Rows of a seven-column statement: the table header, two transactions, the summary marker.\<close>

definition header_row :: row where
  "header_row =
     [Some ''Date'', Some ''Value Dt'', Some ''Narration'', Some ''Chq/Ref Number'',
      Some ''Withdrawal Amt'', Some ''Deposit Amt'', Some ''Closing Balance'']"

definition txn_row_1 :: row where
  "txn_row_1 =
     [Some ''01/01/24'', Some ''01/01/24'', Some ''UPI/AMAZON PAY/123'', Some ''1001'',
      Some ''500'', None, Some ''9500'']"

definition txn_row_2 :: row where
  "txn_row_2 =
     [Some ''02/01/24'', Some ''02/01/24'', Some ''SALARY JAN'', Some ''1002'',
      None, Some ''20000'', Some ''29500'']"

definition summary_row :: row where
  "summary_row = [Some ''STATEMENT SUMMARY :-'', None, None, None, None, None, None]"

text \<open>The monthly series of the scenario: January 100, February -50, March 9000.\<close>

definition month_point :: "int \<Rightarrow> real \<Rightarrow> monthly_row" where
  "month_point m b = \<lparr>year_month = (2024, m), closing_balance = b\<rparr>"

definition scenario_series :: "monthly_row list" where
  "scenario_series = [month_point 1 100, month_point 2 (- 50), month_point 3 9000]"

text \<open>
  Two ledgers: three withdrawals of 0.1, 0.1 and 1.1 (as float64) in the categories food,
  fuel and food, and four rows with whole amounts.
\<close>

definition rounding_ledger :: "transaction list" where
  "rounding_ledger =
     [enrich (round64 (1 / 10)) 0 ''zomato'', enrich (round64 (1 / 10)) 0 ''petrol'',
      enrich (round64 (11 / 10)) 0 ''swiggy'']"

definition whole_ledger :: "transaction list" where
  "whole_ledger =
     [enrich 500 0 ''zomato'', enrich 0 20000 ''salary'', enrich 250 0 ''petrol'',
      enrich 120 0 ''swiggy'']"

section \<open>Narration cleaning and classification\<close>

lemma of_char_lower_char:
  "is_upper c \<Longrightarrow> of_char (lower_char c) = of_char c + (32::nat)"
  by (simp add: lower_char_def is_upper_def less_eq_char_def)

lemma lower_char_is_lower: "is_upper c \<Longrightarrow> is_lower (lower_char c)"
  using of_char_lower_char [of c]
  by (simp add: is_upper_def is_lower_def less_eq_char_def)

lemma upper_not_lower: "is_upper c \<Longrightarrow> \<not> is_lower c"
  by (simp add: is_upper_def is_lower_def less_eq_char_def)

lemma upper_not_digit: "is_upper c \<Longrightarrow> \<not> is_digit c"
  by (simp add: is_upper_def is_digit_def less_eq_char_def)

lemma lower_char_not_upper: "\<not> is_upper (lower_char c)"
proof (cases "is_upper c")
  case True
  then show ?thesis using lower_char_is_lower upper_not_lower by blast
next
  case False
  then show ?thesis by (simp add: lower_char_def)
qed

lemma clean_char_sub: "clean_char (sub_non_alnum (lower_char c))"
  using lower_char_not_upper [of c] by (simp add: sub_non_alnum_def clean_char_def)

lemma space_not_upper: "is_upper (CHR '' '') = False"
  by (simp add: is_upper_def)

lemma clean_char_not_upper: "clean_char c \<Longrightarrow> \<not> is_upper c"
  unfolding clean_char_def using upper_not_lower upper_not_digit space_not_upper by blast

lemma clean_char_fix: "clean_char c \<Longrightarrow> sub_non_alnum (lower_char c) = c"
  using clean_char_not_upper [of c]
  by (simp add: lower_char_def sub_non_alnum_def clean_char_def)

lemma single_spaced_Cons: "single_spaced (c # cs) \<Longrightarrow> single_spaced cs"
  by (cases cs) auto

lemma single_spaced_collapse: "single_spaced (collapse_ws s)"
proof (induction s rule: collapse_ws.induct)
  case 1
  then show ?case by simp
next
  case (2 c cs)
  show ?case
  proof (cases "is_space c")
    case True
    show ?thesis
    proof (cases "dropWhile is_space cs")
      case Nil
      with True show ?thesis by (simp del: dropWhile_eq_Nil_conv)
    next
      case (Cons d ds)
      then have "\<not> is_space d" by (simp add: dropWhile_eq_Cons_conv)
      with True Cons 2 show ?thesis by simp
    qed
  next
    case False
    with 2 show ?thesis by (cases "collapse_ws cs") auto
  qed
qed

lemma collapse_single_spaced: "single_spaced s \<Longrightarrow> collapse_ws s = s"
  by (induction s rule: single_spaced.induct) auto

lemma single_spaced_suffix: "single_spaced (xs @ ys) \<Longrightarrow> single_spaced ys"
  by (induction xs) (auto dest: single_spaced_Cons)

lemma single_spaced_prefix: "single_spaced (xs @ ys) \<Longrightarrow> single_spaced xs"
proof (induction xs rule: single_spaced.induct)
  case (1 a b cs)
  then show ?case by simp
next
  case (2 a)
  then show ?case by (cases ys) auto
next
  case 3
  then show ?case by simp
qed

lemma rstrip_decomp: "rstrip s @ rev (takeWhile is_space (rev s)) = s"
proof -
  have "rev (takeWhile is_space (rev s) @ dropWhile is_space (rev s)) = s"
    by simp
  then show ?thesis by (simp only: rev_append rstrip_def)
qed

lemma lstrip_decomp: "takeWhile is_space s @ lstrip s = s"
  by (simp add: lstrip_def)

lemma single_spaced_strip:
  assumes "single_spaced s"
  shows "single_spaced (strip s)"
proof -
  from assms have "single_spaced (rstrip s)"
    using single_spaced_prefix [of "rstrip s" "rev (takeWhile is_space (rev s))"]
    by (simp add: rstrip_decomp)
  then show ?thesis
    using single_spaced_suffix [of "takeWhile is_space (rstrip s)" "lstrip (rstrip s)"]
    by (simp add: lstrip_decomp strip_def)
qed

lemma set_strip: "c \<in> set (strip s) \<Longrightarrow> c \<in> set s"
  unfolding strip_def lstrip_def rstrip_def
  by (auto dest!: set_dropWhileD)

lemma set_collapse_ws:
  "\<forall>c\<in>set s. clean_char c \<Longrightarrow> \<forall>c\<in>set (collapse_ws s). clean_char c"
proof (induction s rule: collapse_ws.induct)
  case 1
  then show ?case by simp
next
  case (2 c cs)
  have sp: "clean_char (CHR '' '')" by (simp add: clean_char_def)
  show ?case
  proof (cases "is_space c")
    case True
    have "\<forall>x\<in>set (dropWhile is_space cs). clean_char x"
      using 2(3) by (auto dest: set_dropWhileD)
    with 2(1) True sp show ?thesis by simp
  next
    case False
    with 2 show ?thesis by simp
  qed
qed

lemma rstrip_id: "s = [] \<or> \<not> is_space (last s) \<Longrightarrow> rstrip s = s"
  unfolding rstrip_def by (cases s rule: rev_cases) auto

lemma rstrip_last: "rstrip s = [] \<or> \<not> is_space (last (rstrip s))"
proof (cases "dropWhile is_space (rev s)")
  case Nil
  then show ?thesis by (simp add: rstrip_def del: dropWhile_eq_Nil_conv)
next
  case (Cons d ds)
  then have "\<not> is_space d" by (simp add: dropWhile_eq_Cons_conv)
  with Cons show ?thesis by (simp add: rstrip_def)
qed

lemma lstrip_last:
  assumes "s = [] \<or> \<not> is_space (last s)"
  shows "lstrip s = [] \<or> \<not> is_space (last (lstrip s))"
proof (cases "s = []")
  case True
  then show ?thesis by (simp add: lstrip_def)
next
  case False
  with assms have "last s \<in> set s" "\<not> is_space (last s)" by simp_all
  then have "last (dropWhile is_space s) = last s" by (rule dropWhile_last)
  with assms False show ?thesis by (simp add: lstrip_def)
qed

lemma strip_idem: "strip (strip s) = strip s"
proof -
  have "rstrip (lstrip (rstrip s)) = lstrip (rstrip s)"
    by (rule rstrip_id) (rule lstrip_last [OF rstrip_last])
  then show ?thesis by (simp add: strip_def lstrip_def dropWhile_idem)
qed

lemma clean_text_chars: "\<forall>c\<in>set (clean_text s). clean_char c"
proof -
  have "\<forall>c\<in>set (map sub_non_alnum (py_lower s)). clean_char c"
    by (simp add: py_lower_def clean_char_sub)
  then have "\<forall>c\<in>set (collapse_ws (map sub_non_alnum (py_lower s))). clean_char c"
    by (rule set_collapse_ws)
  then show ?thesis unfolding clean_text_def using set_strip by blast
qed

lemma clean_text_fixed: "clean_text (clean_text s) = clean_text s"
proof -
  let ?u = "collapse_ws (map sub_non_alnum (py_lower s))"
  have v: "clean_text s = strip ?u" by (simp add: clean_text_def)
  have "map (\<lambda>c. sub_non_alnum (lower_char c)) (clean_text s) = clean_text s"
    using clean_text_chars [of s] by (intro map_idI) (simp add: clean_char_fix)
  then have a: "map sub_non_alnum (py_lower (clean_text s)) = clean_text s"
    by (simp add: py_lower_def comp_def)
  have "single_spaced (clean_text s)"
    unfolding v by (rule single_spaced_strip) (rule single_spaced_collapse)
  then have b: "collapse_ws (clean_text s) = clean_text s"
    by (rule collapse_single_spaced)
  have "clean_text (clean_text s) = strip (clean_text s)"
    unfolding clean_text_def [of "clean_text s"] by (simp only: a b)
  then show ?thesis by (simp add: v strip_idem)
qed

text \<open>
  Claim C10: narration cleaning is idempotent. For every string \<open>s\<close>, cleaning the
  cleaned text again returns it unchanged, and so the category assigned to it is the
  same.
\<close>

theorem clean_text_idempotent:
  "clean_text (clean_text s) = clean_text s \<and>
   categorize_transaction (clean_text (clean_text s)) = categorize_transaction (clean_text s)"
  by (simp add: clean_text_fixed)

lemma keyword_loop_ex: "keyword_loop kws n = list_ex (\<lambda>k. py_in k n) kws"
  by (induction kws) auto

lemma category_loop_find: "category_loop tax n = first_matching_category tax n"
  by (induction tax n rule: category_loop.induct)
     (auto simp: first_matching_category_def keyword_loop_ex)

lemma scenario_cleaned: "clean_text ''UPI/AMAZON PAY/123'' = ''upi amazon pay 123''"
  by code_simp

lemma scenario_category: "categorize_transaction ''upi amazon pay 123'' = ''transfer''"
  by code_simp

text \<open>
  Claim C8: the classifier assigns the first category, in the declaration order of the
  taxonomy (transfer, salary, shopping, food, entertainment, utilities, fuel, others),
  one of whose keywords is a substring of the narration, and \<open>others\<close> when no keyword
  occurs. The narration \<open>UPI/AMAZON PAY/123\<close> is cleaned to \<open>upi amazon pay 123\<close> and
  is classified as \<open>transfer\<close>.
\<close>

theorem classifier_first_category_wins:
  "categorize_transaction n = first_matching_category categories n \<and>
   map fst categories =
     [''transfer'', ''salary'', ''shopping'', ''food'', ''entertainment'', ''utilities'',
      ''fuel'', ''others''] \<and>
   clean_text ''UPI/AMAZON PAY/123'' = ''upi amazon pay 123'' \<and>
   categorize_transaction (clean_text ''UPI/AMAZON PAY/123'') = ''transfer''"
proof -
  have "categorize_transaction n = first_matching_category categories n"
    by (simp add: categorize_transaction_def category_loop_find)
  moreover have "map fst categories =
     [''transfer'', ''salary'', ''shopping'', ''food'', ''entertainment'', ''utilities'',
      ''fuel'', ''others'']"
    by (simp add: categories_def)
  moreover have "categorize_transaction (clean_text ''UPI/AMAZON PAY/123'') = ''transfer''"
    by (simp only: scenario_cleaned scenario_category)
  ultimately show ?thesis using scenario_cleaned by blast
qed

section \<open>Derived amount and kind\<close>

text \<open>
  Claim C1, as stated: for non-negative amounts, \<open>amount\<close> is the larger of the two
  amount fields. It fails on a row with withdrawal 5 and deposit 10: the withdrawal
  takes priority and \<open>amount\<close> is 5, not 10.
\<close>

theorem amount_is_max_counterexample:
  "amount (enrich 5 10 ''x'') \<noteq>
     max (withdrawal_amt (enrich 5 10 ''x'')) (deposit_amt (enrich 5 10 ''x''))"
  by (simp add: enrich_def calculate_amount_def)

text \<open>
  Claim C1, amended: for non-negative withdrawal \<open>w\<close> and deposit \<open>d\<close>, the amount is
  \<open>w\<close> when \<open>w\<close> is positive and \<open>d\<close> otherwise (the withdrawal takes priority), which
  is \<open>max w d\<close> whenever at most one of the two is nonzero; the kind is \<open>withdrawal\<close>
  exactly when \<open>w\<close> is positive, \<open>deposit\<close> exactly when \<open>w\<close> is zero and \<open>d\<close> is
  positive, \<open>unknown\<close> exactly when both are zero, and kind \<open>unknown\<close> implies amount 0.
\<close>

theorem derived_amount_and_kind:
  assumes "0 \<le> w" and "0 \<le> d"
  shows "amount (enrich w d n) = (if 0 < w then w else d) \<and>
    (w = 0 \<or> d = 0 \<longrightarrow> amount (enrich w d n) = max w d) \<and>
    (transaction_type (enrich w d n) = ''withdrawal'' \<longleftrightarrow> 0 < w) \<and>
    (transaction_type (enrich w d n) = ''deposit'' \<longleftrightarrow> w = 0 \<and> 0 < d) \<and>
    (transaction_type (enrich w d n) = ''unknown'' \<longleftrightarrow> w = 0 \<and> d = 0) \<and>
    (transaction_type (enrich w d n) = ''unknown'' \<longrightarrow> amount (enrich w d n) = 0)"
  using assms
  by (auto simp: enrich_def calculate_amount_def calculate_transaction_type_def)

theorem derived_amount_and_kind_witness:
  "(0::real) \<le> 0 \<and> (0::real) \<le> 10 \<and>
   amount (enrich 0 10 ''x'') = max 0 10 \<and>
   transaction_type (enrich 0 10 ''x'') = ''deposit'' \<and>
   transaction_type (enrich 0 0 ''x'') = ''unknown'' \<and>
   amount (enrich 0 0 ''x'') = 0"
proof -
  have h0: "(0::real) \<le> 0" and h10: "(0::real) \<le> 10" by simp_all
  show ?thesis
    using derived_amount_and_kind [OF h0 h10, of "''x''"]
      derived_amount_and_kind [OF h0 h0, of "''x''"]
    by simp
qed

section \<open>Category spend\<close>

lemma sum_list_insort:
  "sum_list (map f (insort a xs)) = (f a :: 'a::comm_monoid_add) + sum_list (map f (xs::string list))"
  by (induction xs) (auto simp: ac_simps)

lemma sum_list_sort:
  "sum_list (map f (sort xs)) = (sum_list (map f (xs::string list)) :: 'a::comm_monoid_add)"
  by (induction xs) (auto simp: sum_list_insort)

lemma group_sums_total:
  fixes df :: "transaction list" and f :: "transaction \<Rightarrow> 'a::comm_monoid_add"
  assumes "finite K" "category ` set df \<subseteq> K"
  shows "(\<Sum>c\<in>K. sum_list (map f (filter (\<lambda>t. category t = c) df))) = sum_list (map f df)"
  using assms
proof (induction df)
  case Nil
  then show ?case by simp
next
  case (Cons t ts)
  let ?g = "\<lambda>c. sum_list (map f (filter (\<lambda>t. category t = c) ts))"
  have "(\<Sum>c\<in>K. sum_list (map f (filter (\<lambda>x. category x = c) (t # ts))))
      = (\<Sum>c\<in>K. (if c = category t then f t else 0) + ?g c)"
    by (intro sum.cong) auto
  also have "\<dots> = (\<Sum>c\<in>K. if c = category t then f t else 0) + (\<Sum>c\<in>K. ?g c)"
    by (simp add: sum.distrib)
  also have "(\<Sum>c\<in>K. if c = category t then f t else 0) = f t"
    using Cons.prems by (simp add: sum.delta')
  also have "(\<Sum>c\<in>K. ?g c) = sum_list (map f ts)"
    using Cons by simp
  finally show ?case by simp
qed

lemma groups_total:
  fixes f :: "transaction \<Rightarrow> 'a::comm_monoid_add"
  shows "sum_list (map (\<lambda>g. sum_list (map f (snd g))) (groupby_category df)) = sum_list (map f df)"
proof -
  let ?g = "\<lambda>c. sum_list (map f (filter (\<lambda>t. category t = c) df))"
  have "sum_list (map (\<lambda>g. sum_list (map f (snd g))) (groupby_category df)) =
      sum_list (map ?g (sort (remdups (map category df))))"
    by (simp add: groupby_category_def comp_def)
  also have "\<dots> = sum_list (map ?g (remdups (map category df)))"
    by (rule sum_list_sort)
  also have "\<dots> = (\<Sum>c\<in>set (remdups (map category df)). ?g c)"
    by (rule sum_list_distinct_conv_sum_set) simp
  also have "\<dots> = sum_list (map f df)"
    by (rule group_sums_total) auto
  finally show ?thesis .
qed

lemma count_list_sum:
  "count_list xs t = sum_list (map (\<lambda>x. if x = t then 1 else 0) xs)"
  by (induction xs) auto

lemma count_list_concat:
  "count_list (concat xss) t = sum_list (map (\<lambda>xs. count_list xs t) xss)"
  by (induction xss) (auto simp: count_list_append)

lemma groups_partition:
  "count_list (concat (map snd (groupby_category df))) t = count_list df t"
proof -
  have "count_list (concat (map snd (groupby_category df))) t =
      sum_list (map (\<lambda>g. count_list (snd g) t) (groupby_category df))"
    by (simp add: count_list_concat comp_def)
  also have "\<dots> = sum_list (map (\<lambda>g. sum_list (map (\<lambda>x. if x = t then 1 else 0) (snd g)))
      (groupby_category df))"
    by (simp add: count_list_sum)
  also have "\<dots> = sum_list (map (\<lambda>x. if x = t then 1 else 0) df)"
    by (rule groups_total)
  finally show ?thesis by (simp add: count_list_sum)
qed

lemma round_half_even_of_int: "round_half_even (of_int n) = n"
  by (simp add: round_half_even_def)

lemma pow2_pos: "0 < pow2 u"
  by (simp add: pow2_def)

lemma round_scaled_int:
  assumes "u \<le> 0"
  shows "of_int (round_half_even (of_int n / pow2 u)) * pow2 u = of_int n"
proof -
  have p: "pow2 u = 1 / 2 ^ nat (- u)"
    using assms by (cases "u = 0") (simp_all add: pow2_def)
  have "of_int n / pow2 u = of_int (n * 2 ^ nat (- u))"
    by (simp add: p)
  then have "round_half_even (of_int n / pow2 u) = n * 2 ^ nat (- u)"
    by (simp only: round_half_even_of_int)
  then show ?thesis by (simp add: p)
qed

lemma exponent_of_int:
  assumes "0 < n" "n < 2 ^ 53"
  shows "exponent (of_int n) \<le> 52"
proof -
  have b: "bitlen n \<le> 53" using assms(2) by (simp add: bitlen_le_iff_power)
  have "n < 2 ^ nat (bitlen n)" using bitlen_bounds [OF assms(1)] by simp
  then have "real_of_int n < 2 ^ nat (bitlen n)"
    by (metis of_int_less_iff of_int_numeral of_int_power)
  moreover have "pow2 (bitlen n) = 2 ^ nat (bitlen n)"
    by (simp add: pow2_def bitlen_nonneg)
  ultimately have "\<not> pow2 (bitlen n - 1 + 1) \<le> real_of_int n" by simp
  moreover have "1 \<le> \<bar>real_of_int n\<bar>" using assms(1) by simp
  ultimately have "exponent (of_int n) = bitlen n - 1"
    using assms(1) by (simp add: exponent_def Let_def)
  with b show ?thesis by simp
qed

lemma round64_nat:
  assumes "x \<in> \<nat>" "x < 2 ^ 53"
  shows "round64 x = x"
proof (cases "x = 0")
  case True
  then show ?thesis by (simp add: round64_def)
next
  case False
  from assms(1) obtain m where m: "x = of_nat m" by (auto elim: Nats_cases)
  define n where "n = int m"
  have x: "x = of_int n" by (simp add: m n_def)
  have pos: "0 < n" using False by (simp add: m n_def)
  have "real_of_int n < 2 ^ 53" using assms(2) x by simp
  then have lt: "n < 2 ^ 53" by (metis of_int_less_iff of_int_numeral of_int_power)
  have "exponent (of_int n) \<le> 52" using pos lt by (rule exponent_of_int)
  then have u: "max (exponent (of_int n) - 52) (- 1074) \<le> 0" by simp
  show ?thesis
    using False round_scaled_int [OF u, of n] by (simp add: round64_def x Let_def)
qed

lemma sum_list_Nats: "\<forall>x\<in>set xs. x \<in> \<nat> \<Longrightarrow> sum_list xs \<in> (\<nat> :: real set)"
  by (induction xs) (auto intro: Nats_add)

lemma Nats_nonneg: "x \<in> \<nat> \<Longrightarrow> 0 \<le> (x::real)"
  by (auto elim: Nats_cases)

lemma sum_list_Nats_nonneg: "\<forall>x\<in>set xs. x \<in> \<nat> \<Longrightarrow> 0 \<le> (sum_list xs :: real)"
  using sum_list_Nats Nats_nonneg by blast

lemma foldl_float64_exact:
  assumes "acc \<in> \<nat>" "\<forall>x\<in>set xs. x \<in> \<nat>" "acc + sum_list xs < 2 ^ 53"
  shows "foldl float64_add acc xs = acc + sum_list xs"
  using assms
proof (induction xs arbitrary: acc)
  case Nil
  then show ?case by simp
next
  case (Cons x xs)
  have nx: "acc + x \<in> \<nat>" using Cons.prems by (simp add: Nats_add)
  have "0 \<le> sum_list xs" using Cons.prems(2) by (simp add: sum_list_Nats_nonneg)
  then have "acc + x < 2 ^ 53" using Cons.prems(3) by simp
  then have r: "float64_add acc x = acc + x"
    using nx by (simp add: float64_add_def round64_nat)
  have "foldl float64_add (acc + x) xs = acc + x + sum_list xs"
    using nx Cons.prems by (intro Cons.IH) (simp_all add: add.assoc)
  then show ?case by (simp add: r add.assoc)
qed

lemma float64_sum_exact:
  assumes "\<forall>x\<in>set xs. x \<in> \<nat>" "sum_list xs < 2 ^ 53"
  shows "float64_sum xs = sum_list xs"
  using foldl_float64_exact [of 0 xs] assms by (simp add: float64_sum_def)

lemma sum_list_filter_le:
  "\<forall>x\<in>set xs. 0 \<le> f x \<Longrightarrow> sum_list (map f (filter P xs)) \<le> (sum_list (map f xs) :: real)"
  by (induction xs) auto

lemma group_rows:
  "g \<in> set (groupby_category df) \<Longrightarrow> snd g = filter (\<lambda>t. category t = fst g) df"
  by (auto simp: groupby_category_def)

lemma whole_amounts_equal:
  assumes nat: "\<forall>t\<in>set (withdrawals df). amount t \<in> \<nat>"
    and bound: "sum_list (map amount (withdrawals df)) < 2 ^ 53"
  shows "category_spending_sum df = total_expenditure df"
proof -
  let ?ws = "withdrawals df"
  let ?exact = "\<lambda>g. sum_list (map amount (snd g))"
  have nonneg: "\<forall>t\<in>set ?ws. 0 \<le> amount t" using nat Nats_nonneg by blast
  have tot: "total_expenditure df = sum_list (map amount ?ws)"
    using nat bound by (simp add: total_expenditure_def float64_sum_exact)
  have grp: "float64_sum (map amount (snd g)) = ?exact g"
    if g: "g \<in> set (groupby_category ?ws)" for g
  proof -
    have rows: "snd g = filter (\<lambda>t. category t = fst g) ?ws" using g by (rule group_rows)
    have "sum_list (map amount (snd g)) \<le> sum_list (map amount ?ws)"
      unfolding rows using nonneg by (rule sum_list_filter_le)
    then have "sum_list (map amount (snd g)) < 2 ^ 53" using bound by simp
    moreover have "\<forall>x\<in>set (map amount (snd g)). x \<in> \<nat>" using nat by (auto simp: rows)
    ultimately show ?thesis by (simp add: float64_sum_exact)
  qed
  have totals: "map snd (category_spending df) = map ?exact (groupby_category ?ws)"
    by (simp add: category_spending_def groupby_category_sum_def comp_def grp)
  have "\<forall>x\<in>set (map ?exact (groupby_category ?ws)). x \<in> \<nat>"
  proof
    fix x assume "x \<in> set (map ?exact (groupby_category ?ws))"
    then obtain g where g: "g \<in> set (groupby_category ?ws)" and x: "x = ?exact g" by auto
    have "\<forall>y\<in>set (map amount (snd g)). y \<in> \<nat>"
      using nat by (auto simp: group_rows [OF g])
    then show "x \<in> \<nat>" unfolding x by (rule sum_list_Nats)
  qed
  moreover have "sum_list (map ?exact (groupby_category ?ws)) = sum_list (map amount ?ws)"
    by (rule groups_total)
  ultimately have "float64_sum (map ?exact (groupby_category ?ws)) = sum_list (map amount ?ws)"
    using bound by (simp add: float64_sum_exact)
  then show ?thesis by (simp add: category_spending_sum_def totals tot)
qed

text \<open>
  Claim C9, as stated: the per-category spend totals, summed over all categories, equal
  the total withdrawal amount exactly. It fails on three withdrawals of 0.1 (food), 0.1
  (fuel) and 1.1 (food): the category totals add up to 1.3000000000000003 and the total
  expenditure is 1.3, since the float64 additions are rounded in a different order.
\<close>

theorem category_totals_rounding_counterexample:
  "category_spending_sum rounding_ledger = 2927339757790823 / 2251799813685248 \<and>
   total_expenditure rounding_ledger = 5854679515581645 / 4503599627370496 \<and>
   category_spending_sum rounding_ledger \<noteq> total_expenditure rounding_ledger"
proof -
  have "category_spending_sum rounding_ledger = 2927339757790823 / 2251799813685248 \<and>
    total_expenditure rounding_ledger = 5854679515581645 / 4503599627370496"
    by code_simp
  then show ?thesis by simp
qed

text \<open>
  Claim C9, amended: for every ledger, the category groups partition the withdrawal-kind
  transactions (every withdrawal transaction occurs in the groups as often as in the
  ledger, none double-counted or dropped), so the per-category sums of \<open>amount\<close> and the
  sum over all withdrawals agree in exact arithmetic; the totals the code computes in
  float64 are exactly equal when the withdrawal amounts are whole numbers with a sum
  below \<open>2 ^ 53\<close>, and can differ by rounding otherwise.
\<close>

theorem category_groups_partition_withdrawals:
  "count_list (concat (map snd (groupby_category (withdrawals df)))) t =
     count_list (withdrawals df) t \<and>
   sum_list (map (\<lambda>g. sum_list (map amount (snd g))) (groupby_category (withdrawals df))) =
     sum_list (map amount (withdrawals df)) \<and>
   ((\<forall>t\<in>set (withdrawals df). amount t \<in> \<nat>) \<and>
    sum_list (map amount (withdrawals df)) < 2 ^ 53 \<longrightarrow>
    category_spending_sum df = total_expenditure df)"
  using groups_partition [of "withdrawals df" t] groups_total [of amount "withdrawals df"]
    whole_amounts_equal [of df]
  by blast

theorem category_groups_partition_withdrawals_witness:
  "withdrawals whole_ledger =
     [enrich 500 0 ''zomato'', enrich 250 0 ''petrol'', enrich 120 0 ''swiggy''] \<and>
   amount (enrich 500 0 ''zomato'') \<in> \<nat> \<and> amount (enrich 250 0 ''petrol'') \<in> \<nat> \<and>
   amount (enrich 120 0 ''swiggy'') \<in> \<nat> \<and>
   sum_list (map amount (withdrawals whole_ledger)) < 2 ^ 53 \<and>
   category_spending_sum whole_ledger = total_expenditure whole_ledger"
proof -
  have w: "withdrawals whole_ledger =
     [enrich 500 0 ''zomato'', enrich 250 0 ''petrol'', enrich 120 0 ''swiggy'']"
    by (simp add: whole_ledger_def withdrawals_def enrich_def calculate_transaction_type_def)
  have a: "amount (enrich 500 0 ''zomato'') = 500" "amount (enrich 250 0 ''petrol'') = 250"
    "amount (enrich 120 0 ''swiggy'') = 120"
    by (simp_all add: enrich_def calculate_amount_def)
  have h1: "\<forall>t\<in>set (withdrawals whole_ledger). amount t \<in> \<nat>"
    by (simp add: w a)
  have h2: "sum_list (map amount (withdrawals whole_ledger)) < 2 ^ 53"
    by (simp add: w a)
  show ?thesis
    using category_groups_partition_withdrawals [of whole_ledger] h1 h2 w
    by (simp add: a)
qed

section \<open>Table locator\<close>

lemma find_loop_no_header:
  "\<forall>r\<in>set rows. \<not> is_header_row r \<Longrightarrow> fst (find_loop rows i s) = s"
  by (induction rows i s rule: find_loop.induct) auto

lemma iloc_slice_None: "iloc_slice xs None e = iloc_slice xs (Some 0) e"
  by (simp add: iloc_slice_def slice_bound_def)

lemma txn_rows_not_header:
  "\<not> is_header_row txn_row_1" "\<not> is_header_row txn_row_2" "\<not> is_header_row summary_row"
  by code_simp+

text \<open>
  Claim C2, as stated: a sheet without a start marker makes the extraction fail with a
  table-not-found condition. It fails on the seven-column sheet of two transaction rows
  and the summary row: the start index is \<open>None\<close>, the slice is taken from the top of
  the sheet, and the extraction returns a table.
\<close>

theorem missing_start_marker_counterexample:
  "\<not> is_header_row txn_row_1 \<and> \<not> is_header_row txn_row_2 \<and> \<not> is_header_row summary_row \<and>
   find_transaction_data_indices [txn_row_1, txn_row_2, summary_row] = (None, Some 1) \<and>
   extract_table \<lparr>n_columns = 7, sheet_rows = [txn_row_1, txn_row_2, summary_row]\<rparr> =
     Inr [txn_row_1]"
  by code_simp

text \<open>
  Claim C2, amended: for every raw sheet in which no row is a header row, the locator
  returns the start index \<open>None\<close> and the extraction does not fail on that account: it
  slices the sheet from its first row up to the end index, as \<open>iloc[0:end_idx]\<close> does,
  and fails only when the sheet does not have seven columns.
\<close>

theorem missing_start_marker_proceeds:
  assumes "\<forall>r\<in>set (sheet_rows sh). \<not> is_header_row r"
  shows "fst (find_transaction_data_indices (sheet_rows sh)) = None \<and>
     extract_table sh =
       (if n_columns sh = 7
        then Inr (iloc_slice (sheet_rows sh) (Some 0)
                    (snd (find_transaction_data_indices (sheet_rows sh))))
        else Inl ValueError)"
proof -
  have a: "fst (find_transaction_data_indices (sheet_rows sh)) = None"
    unfolding find_transaction_data_indices_def using assms by (rule find_loop_no_header)
  then show ?thesis
    by (cases "find_transaction_data_indices (sheet_rows sh)")
       (simp add: extract_table_def iloc_slice_None)
qed

theorem missing_start_marker_proceeds_witness:
  "\<not> is_header_row txn_row_1 \<and> \<not> is_header_row txn_row_2 \<and>
   fst (find_transaction_data_indices [txn_row_1, txn_row_2]) = None \<and>
   extract_table \<lparr>n_columns = 7, sheet_rows = [txn_row_1, txn_row_2]\<rparr> =
     Inr (iloc_slice [txn_row_1, txn_row_2] (Some 0)
            (snd (find_transaction_data_indices [txn_row_1, txn_row_2])))"
proof -
  have h: "\<forall>r\<in>set (sheet_rows \<lparr>n_columns = 7, sheet_rows = [txn_row_1, txn_row_2]\<rparr>).
      \<not> is_header_row r"
    by (simp add: txn_rows_not_header)
  show ?thesis
    using missing_start_marker_proceeds [OF h] by (simp add: txn_rows_not_header)
qed

text \<open>
  Claim C4: with a start marker and a later \<open>statement summary\<close> row, the extracted
  region runs through the row immediately before the summary row. On the sheet of the
  header row, two transaction rows and the summary row the code returns the first
  transaction row only: the end index 2 is the index of the last transaction row, and
  the slice \<open>iloc[1:2]\<close> leaves that row out.
\<close>

theorem row_before_summary_dropped:
  "find_transaction_data_indices [header_row, txn_row_1, txn_row_2, summary_row] =
     (Some 1, Some 2) \<and>
   extract_table
     \<lparr>n_columns = 7, sheet_rows = [header_row, txn_row_1, txn_row_2, summary_row]\<rparr> =
     Inr [txn_row_1]"
  by code_simp

section \<open>Header extractor\<close>

lemma header_step_entry:
  "header_step line h = (case line_entry line of None \<Rightarrow> h | Some (k, v) \<Rightarrow> h(k \<mapsto> v))"
  unfolding header_step_def line_entry_def
  by (simp split: option.split prod.split)

lemma header_step_field:
  "header_step line h field =
     (case header_step line Map.empty field of Some v \<Rightarrow> Some v | None \<Rightarrow> h field)"
  by (simp add: header_step_entry split: option.split prod.split)

lemma header_loop_append:
  "header_loop (xs @ ys) h = header_loop ys (header_loop xs h)"
  by (induction xs arbitrary: h) auto

lemma header_loop_none:
  "\<forall>r\<in>set rs. row_records r field = None \<Longrightarrow> header_loop rs h field = h field"
proof (induction rs arbitrary: h)
  case Nil
  then show ?case by simp
next
  case (Cons r rs)
  then have "header_step (row_line r) h field = h field"
    using header_step_field [of "row_line r" h field] by (simp add: row_records_def)
  with Cons show ?case by simp
qed

text \<open>
  Claim C5, as stated: when two rows match the same label, the value of the first one is
  recorded. It fails on two rows that both match the Email pattern: the first row alone
  records \<open>first@x.com\<close>, and the extractor run on both rows records \<open>second@x.com\<close>.
\<close>

theorem header_first_match_counterexample:
  "row_records [Some ''Email : first@x.com''] ''Email'' = Some (Str ''first@x.com'') \<and>
   extract_header_info [[Some ''Email : first@x.com''], [Some ''Email : second@x.com'']]
     ''Email'' = Some (Str ''second@x.com'')"
  by code_simp

text \<open>
  Claim C5, amended: when several rows match the same label, the Header Extractor
  records the value of the last matching row. If a row records the value \<open>v\<close> under a
  field and no later row records anything under that field, the result holds \<open>v\<close> under
  it, whatever the earlier rows recorded: every later match overwrites the field.
\<close>

theorem header_last_match_wins:
  assumes "row_records r field = Some v"
    and "\<forall>r'\<in>set later. row_records r' field = None"
  shows "extract_header_info (earlier @ r # later) field = Some v"
proof -
  let ?h = "header_loop earlier Map.empty"
  have "header_step (row_line r) ?h field = Some v"
    using assms(1) header_step_field [of "row_line r" ?h field] by (simp add: row_records_def)
  then show ?thesis
    using assms(2) by (simp add: extract_header_info_def header_loop_append header_loop_none)
qed

theorem header_last_match_wins_witness:
  "row_records [Some ''Email : second@x.com''] ''Email'' = Some (Str ''second@x.com'') \<and>
   row_records [Some ''Cust ID : 42''] ''Email'' = None \<and>
   extract_header_info
     ([[Some ''Email : first@x.com'']] @ [Some ''Email : second@x.com''] #
      [[Some ''Cust ID : 42'']]) ''Email'' = Some (Str ''second@x.com'')"
proof -
  have h1: "row_records [Some ''Email : second@x.com''] ''Email'' = Some (Str ''second@x.com'')"
    by code_simp
  have h2: "row_records [Some ''Cust ID : 42''] ''Email'' = None"
    by code_simp
  have h3: "\<forall>r'\<in>set [[Some ''Cust ID : 42'']]. row_records r' ''Email'' = None"
    using h2 by simp
  show ?thesis
    using h1 h2 header_last_match_wins [OF h1 h3, of "[[Some ''Email : first@x.com'']]"]
    by simp
qed

section \<open>Outlier filter\<close>

lemma quantile_constant:
  assumes "0 \<le> q" "q \<le> 1" "xs \<noteq> []" "\<forall>x\<in>set xs. x = b"
  shows "quantile xs q = Inr (Some b)"
proof -
  let ?n = "length xs"
  let ?h = "real (?n - 1) * q"
  have n: "0 < ?n" using assms(3) by simp
  have h1: "?h \<le> real (?n - 1)" using assms(2) by (simp add: mult_left_le)
  have "\<lfloor>?h\<rfloor> \<le> \<lfloor>real (?n - 1)\<rfloor>" using h1 by (rule floor_mono)
  then have fl: "\<lfloor>?h\<rfloor> \<le> int (?n - 1)" by (simp only: floor_of_nat)
  have "\<lceil>?h\<rceil> \<le> \<lceil>real (?n - 1)\<rceil>" using h1 by (rule ceiling_mono)
  then have cl: "\<lceil>?h\<rceil> \<le> int (?n - 1)" by (simp only: ceiling_of_nat)
  have lo: "nat \<lfloor>?h\<rfloor> < length (sort xs)" unfolding length_sort using fl n by linarith
  have hi: "nat \<lceil>?h\<rceil> < length (sort xs)" unfolding length_sort using cl n by linarith
  have all: "\<forall>x\<in>set (sort xs). x = b" using assms(4) by simp
  have "sort xs ! nat \<lfloor>?h\<rfloor> = b" using all lo nth_mem by blast
  moreover have "sort xs ! nat \<lceil>?h\<rceil> = b" using all hi nth_mem by blast
  ultimately show ?thesis using assms(1-3) by (simp add: quantile_def Let_def)
qed

lemma remove_outliers_constant:
  assumes "0 \<le> ql" "ql \<le> 1" "0 \<le> qu" "qu \<le> 1"
    and "\<forall>r\<in>set df. closing_balance r = b"
  shows "remove_outliers df ql qu = Inr df"
proof (cases "df = []")
  case True
  with assms(1-4) show ?thesis by (simp add: remove_outliers_def quantile_def)
next
  case False
  let ?xs = "map closing_balance df"
  have ne: "?xs \<noteq> []" using False by simp
  have eq: "\<forall>x\<in>set ?xs. x = b" using assms(5) by auto
  have l: "quantile ?xs ql = Inr (Some b)" using assms(1,2) ne eq by (rule quantile_constant)
  have u: "quantile ?xs qu = Inr (Some b)" using assms(3,4) ne eq by (rule quantile_constant)
  have "filter (\<lambda>r. in_bounds (Some b) (Some b) (closing_balance r)) df = df"
    using assms(5) by (simp add: in_bounds_def)
  then show ?thesis by (simp add: remove_outliers_def l u)
qed

lemma remove_outliers_valid:
  "remove_outliers df ql qu = Inr f \<Longrightarrow> 0 \<le> ql \<and> ql \<le> 1 \<and> 0 \<le> qu \<and> qu \<le> 1"
  by (auto simp: remove_outliers_def quantile_def split: if_splits sum.splits)

lemma scenario_lower: "quantile [100, - 50, 9000] (1 / 100) = Inr (Some (- 47))"
  by (simp add: quantile_def)

lemma scenario_upper: "quantile [100, - 50, 9000] (99 / 100) = Inr (Some 8822)"
  by (simp add: quantile_def)

lemma scenario_filtered:
  "remove_outliers scenario_series (1 / 100) (99 / 100) = Inr [month_point 1 100]"
  by (simp add: remove_outliers_def scenario_series_def month_point_def
      scenario_lower scenario_upper in_bounds_def)

text \<open>
  Claim C3, as stated: a series below the minimum sample is returned unfiltered, and the
  filter with the 1\%/99\% bounds is a no-op on the three-point series January 100,
  February -50, March 9000. It fails on that series: the bounds are -47 and 8822, and
  the result is not the series.
\<close>

theorem small_series_counterexample:
  "remove_outliers scenario_series (1 / 100) (99 / 100) \<noteq> Inr scenario_series"
proof -
  have "Inr [month_point 1 100] \<noteq> (Inr scenario_series :: error + monthly_row list)"
    by (simp add: scenario_series_def)
  then show ?thesis unfolding scenario_filtered .
qed

text \<open>
  Claim C3, amended: the filter has no minimum sample; for quantile bounds within
  \<open>[0, 1]\<close> it returns a series of at most one point unfiltered, and on the three-point
  series January 100, February -50, March 9000 with the 1\%/99\% bounds it retains the
  January point only.
\<close>

theorem outlier_filter_small_series:
  assumes "0 \<le> ql" "ql \<le> 1" "0 \<le> qu" "qu \<le> 1" and "length df \<le> 1"
  shows "remove_outliers df ql qu = Inr df \<and>
    remove_outliers scenario_series (1 / 100) (99 / 100) = Inr [month_point 1 100]"
proof -
  have "\<forall>r\<in>set df. closing_balance r = closing_balance (hd df)"
    using assms(5) by (cases df) auto
  with assms(1-4) have "remove_outliers df ql qu = Inr df"
    by (rule remove_outliers_constant)
  then show ?thesis by (simp add: scenario_filtered)
qed

theorem outlier_filter_small_series_witness:
  "(0::real) \<le> 1 / 100 \<and> (1 / 100 :: real) \<le> 1 \<and> (0::real) \<le> 99 / 100 \<and>
   (99 / 100 :: real) \<le> 1 \<and> length [month_point 2 (- 50)] \<le> 1 \<and>
   remove_outliers [month_point 2 (- 50)] (1 / 100) (99 / 100) = Inr [month_point 2 (- 50)]"
proof -
  have a: "(0::real) \<le> 1 / 100" and b: "(1 / 100 :: real) \<le> 1"
    and c: "(0::real) \<le> 99 / 100" and d: "(99 / 100 :: real) \<le> 1" by simp_all
  have e: "length [month_point 2 (- 50)] \<le> 1" by simp
  show ?thesis using a b c d e outlier_filter_small_series [OF a b c d e] by simp
qed

text \<open>
  Claim C7, as stated: filtering an already filtered series with the same bounds returns
  it unchanged. It fails on the balances 1, 2, 3, 4 with the 1\%/99\% bounds: the
  first pass keeps 2 and 3, and the second pass, applied to these two points, removes
  both.
\<close>

theorem outlier_filter_idempotence_counterexample:
  "remove_outliers [month_point 1 1, month_point 2 2, month_point 3 3, month_point 4 4]
     (1 / 100) (99 / 100) = Inr [month_point 2 2, month_point 3 3] \<and>
   remove_outliers [month_point 2 2, month_point 3 3] (1 / 100) (99 / 100) = Inr []"
proof -
  have a: "quantile [1, 2, 3, 4] (1 / 100) = Inr (Some (103 / 100))"
    by (simp add: quantile_def)
  have b: "quantile [1, 2, 3, 4] (99 / 100) = Inr (Some (397 / 100))"
    by (simp add: quantile_def)
  have c: "quantile [2, 3] (1 / 100) = Inr (Some (201 / 100))"
    by (simp add: quantile_def)
  have d: "quantile [2, 3] (99 / 100) = Inr (Some (299 / 100))"
    by (simp add: quantile_def)
  show ?thesis
    by (simp add: remove_outliers_def month_point_def a b c d in_bounds_def)
qed

text \<open>
  Claim C7, amended: filtering an already filtered series with the same bounds returns
  the identical series whenever all balances of the filtered series are equal (in
  particular when it has at most one point); otherwise the second pass may remove
  further points.
\<close>

theorem outlier_refilter_equal_balances:
  assumes "remove_outliers df ql qu = Inr f"
    and "\<forall>r\<in>set f. closing_balance r = b"
  shows "remove_outliers f ql qu = Inr f"
proof -
  from assms(1) have "0 \<le> ql \<and> ql \<le> 1 \<and> 0 \<le> qu \<and> qu \<le> 1"
    by (rule remove_outliers_valid)
  then have v: "0 \<le> ql" "ql \<le> 1" "0 \<le> qu" "qu \<le> 1" by simp_all
  show ?thesis using v assms(2) by (rule remove_outliers_constant)
qed

theorem outlier_refilter_equal_balances_witness:
  "remove_outliers scenario_series (1 / 100) (99 / 100) = Inr [month_point 1 100] \<and>
   closing_balance (month_point 1 100) = 100 \<and>
   remove_outliers [month_point 1 100] (1 / 100) (99 / 100) = Inr [month_point 1 100]"
proof -
  have h1: "remove_outliers scenario_series (1 / 100) (99 / 100) = Inr [month_point 1 100]"
    by (rule scenario_filtered)
  have h2: "closing_balance (month_point 1 100) = 100"
    by (simp add: month_point_def)
  have h3: "\<forall>r\<in>set [month_point 1 100]. closing_balance r = 100"
    using h2 by simp
  show ?thesis using h1 h2 outlier_refilter_equal_balances [OF h1 h3] by simp
qed

section \<open>Forecast output\<close>

lemma display_forecast_floored:
  "r \<in> set (display_forecast forecast periods) \<Longrightarrow>
     0 \<le> Predicted_Closing_Balance r \<and> 0 \<le> Lower_Confidence_Interval r \<and>
     0 \<le> Upper_Confidence_Interval r"
  by (auto simp: display_forecast_def rename_columns_def floor_row_def)

text \<open>
  Claim C6: the three fields of every row of the displayed forecast and of the exported
  forecast file are floored at zero. The displayed table is floored, the exported one is
  not: for a forecast whose last row has the lower bound -5, the table written to the
  file holds -5, while the table printed holds 0.
\<close>

theorem exported_forecast_not_floored:
  "save_forecast_to_excel
     [\<lparr>ds = (2027, 1), yhat = 10, yhat_lower = - 5, yhat_upper = 20\<rparr>] 36 =
     [\<lparr>Date = (2027, 1), Predicted_Closing_Balance = 10,
       Lower_Confidence_Interval = - 5, Upper_Confidence_Interval = 20\<rparr>] \<and>
   display_forecast
     [\<lparr>ds = (2027, 1), yhat = 10, yhat_lower = - 5, yhat_upper = 20\<rparr>] 36 =
     [\<lparr>Date = (2027, 1), Predicted_Closing_Balance = 10,
       Lower_Confidence_Interval = 0, Upper_Confidence_Interval = 20\<rparr>]"
  by (simp add: save_forecast_to_excel_def display_forecast_def tail_def
      rename_columns_def floor_row_def)

end
